theory Spec2Isabelle
  imports Complex_Main
begin

section \<open>Data model of the landmark pipeline (src/src/App.jsx)\<close>

text \<open>
  A point is the JavaScript array \<open>[x, y, z]\<close>, a frame record the array of 42 such
  points (left hand first), and the flattened frame (\<open>frame.flat()\<close>) the list of its
  coordinates.  Coordinates are only copied, never computed with, so they are reals.
\<close>

type_synonym point = "real list"
type_synonym frame = "point list"

datatype landmark = Landmark (lm_x: real) (lm_y: real) (lm_z: real)

datatype handedness = Handedness (label: string)

text \<open>
  The detector's result carries two parallel arrays; either may be missing
  (\<open>undefined\<close>), which the encoder tests for truthiness.
\<close>

record hands_results =
  multiHandLandmarks :: "landmark list list option"
  multiHandedness :: "handedness list option"

text \<open>
  Exceptions raised by the JavaScript engine or thrown by the program, each with its
  \<open>message\<close>.  The wording of the engine's own TypeError on a property read of
  \<open>undefined\<close> or \<open>null\<close> is not part of the program; \<open>cannot_read\<close> stands for it.
\<close>

datatype js_error = Error string | TypeError string | SyntaxError string

fun message :: "js_error \<Rightarrow> string" where
  "message (Error m) = m"
| "message (TypeError m) = m"
| "message (SyntaxError m) = m"

definition cannot_read :: "string \<Rightarrow> string" where
  "cannot_read prop = ''Cannot read properties of undefined (reading '' @ prop @ '')''"

section \<open>Frame encoder: \<open>extractTwoHandLandmarks\<close>\<close>

definition zeroHand :: "point list" where
  "zeroHand = replicate 21 [0, 0, 0]"

definition landmarkArray :: "landmark list \<Rightarrow> point list" where
  "landmarkArray handLandmarks = map (\<lambda>lm. [lm_x lm, lm_y lm, lm_z lm]) handLandmarks"

text \<open>
  The \<open>for\<close> loop over \<open>multiHandLandmarks\<close>.  It reads \<open>multiHandedness[i].label\<close>,
  which raises a TypeError when the handedness array is shorter than the landmark array.
  The state of the loop is the pair \<open>(leftHand, rightHand)\<close>.
\<close>

fun assignHands ::
  "landmark list list \<Rightarrow> handedness list \<Rightarrow> point list \<times> point list
     \<Rightarrow> js_error + (point list \<times> point list)" where
  "assignHands [] hd_list (leftHand, rightHand) = Inr (leftHand, rightHand)"
| "assignHands (handLandmarks # rest) [] (leftHand, rightHand) =
     Inl (TypeError (cannot_read ''label''))"
| "assignHands (handLandmarks # rest) (h # hd_rest) (leftHand, rightHand) =
     (if label h = ''Left''
      then assignHands rest hd_rest (landmarkArray handLandmarks, rightHand)
      else if label h = ''Right''
      then assignHands rest hd_rest (leftHand, landmarkArray handLandmarks)
      else assignHands rest hd_rest (leftHand, rightHand))"

definition extractTwoHandLandmarks :: "hands_results \<Rightarrow> js_error + frame" where
  "extractTwoHandLandmarks handsResults =
     (case (multiHandLandmarks handsResults, multiHandedness handsResults) of
        (Some lms, Some hds) \<Rightarrow>
          (case assignHands lms hds (zeroHand, zeroHand) of
             Inl e \<Rightarrow> Inl e
           | Inr (leftHand, rightHand) \<Rightarrow> Inr (leftHand @ rightHand))
      | _ \<Rightarrow> Inr (zeroHand @ zeroHand))"

text \<open>
  The encoder as the specification words it, for comparison with the code: the slot of a
  label holds the points of the last detected hand carrying that label, and 21 zero
  points when there is none.  A detection is a pair of a label and its landmarks.
\<close>

definition slot_of_spec :: "string \<Rightarrow> (string \<times> landmark list) list \<Rightarrow> point list" where
  "slot_of_spec lbl detections =
     (case filter (\<lambda>d. fst d = lbl) detections of
        [] \<Rightarrow> replicate 21 [0, 0, 0]
      | d # ds \<Rightarrow> landmarkArray (snd (last (d # ds))))"

definition detections_of :: "hands_results \<Rightarrow> (string \<times> landmark list) list" where
  "detections_of handsResults =
     (case (multiHandLandmarks handsResults, multiHandedness handsResults) of
        (Some lms, Some hds) \<Rightarrow> zip (map label hds) lms
      | _ \<Rightarrow> [])"

text \<open>
  A detection result as the detector delivers it: every hand has its handedness entry
  and 21 landmarks.
\<close>

definition wellformed_result :: "hands_results \<Rightarrow> bool" where
  "wellformed_result handsResults =
     (case (multiHandLandmarks handsResults, multiHandedness handsResults) of
        (Some lms, Some hds) \<Rightarrow>
          length lms \<le> length hds \<and> list_all (\<lambda>h. length h = 21) lms
      | _ \<Rightarrow> True)"

section \<open>Sequence normalizer: \<open>uniformTruncate\<close> and the truncate-or-pad step\<close>

definition MAX_SEQ_LEN :: int where
  "MAX_SEQ_LEN = 190"

definition padFrame :: frame where
  "padFrame = replicate 42 [-10, -10, -10]"

text \<open>
  The source index of output index \<open>i\<close>:
  \<open>Math.floor((i * (N - 1)) / Math.max(targetLen - 1, 1))\<close>.  All operands are integers
  far below \<open>2^53\<close>, where the floored double quotient is the integer quotient.
\<close>

definition sample_idx :: "int \<Rightarrow> int \<Rightarrow> nat \<Rightarrow> int" where
  "sample_idx N targetLen i = (int i * (N - 1)) div max (targetLen - 1) 1"

function uniformTruncate_loop :: "'a list \<Rightarrow> int \<Rightarrow> nat \<Rightarrow> 'a list \<Rightarrow> 'a list" where
  "uniformTruncate_loop sequence targetLen i out =
     (if int i < targetLen
      then uniformTruncate_loop sequence targetLen (Suc i)
             (out @ [sequence ! nat (sample_idx (int (length sequence)) targetLen i)])
      else out)"
  by pat_completeness auto
termination
  by (relation "measure (\<lambda>(sequence, targetLen, i, out). nat (targetLen - int i))") auto

declare uniformTruncate_loop.simps [simp del]

definition uniformTruncate :: "'a list \<Rightarrow> int \<Rightarrow> 'a list" where
  "uniformTruncate sequence targetLen =
     (let N = int (length sequence) in
      if N \<le> targetLen then sequence
      else if targetLen \<le> 0 then []
      else uniformTruncate_loop sequence targetLen 0 [])"

function pad_loop :: "frame list \<Rightarrow> int \<Rightarrow> nat \<Rightarrow> frame list" where
  "pad_loop landmarksList padLen p =
     (if int p < padLen then pad_loop (landmarksList @ [padFrame]) padLen (Suc p)
      else landmarksList)"
  by pat_completeness auto
termination
  by (relation "measure (\<lambda>(landmarksList, padLen, p). nat (padLen - int p))") auto

declare pad_loop.simps [simp del]

text \<open>
  The truncate-or-pad step, written twice in the source with the same text (in
  \<open>extractLandmarksFromVideo\<close> and in the live branch of \<open>handleTranslate\<close>), with
  \<open>CONFIG.MAX_SEQ_LEN\<close> as the parameter \<open>targetLen\<close>.
\<close>

definition normalize_seq :: "frame list \<Rightarrow> int \<Rightarrow> frame list" where
  "normalize_seq landmarksList targetLen =
     (if int (length landmarksList) > targetLen
      then uniformTruncate landmarksList targetLen
      else if int (length landmarksList) < targetLen
      then pad_loop landmarksList (targetLen - int (length landmarksList)) 0
      else landmarksList)"

section \<open>JavaScript values and the environment\<close>

text \<open>
  Values obtained from \<open>JSON.parse\<close> and stored in the history.  An object is the list
  of its fields.
\<close>

datatype js_value =
    JUndefined
  | JNull
  | JBool bool
  | JNum real
  | JStr string
  | JArr "js_value list"
  | JObj "(string \<times> js_value) list"

fun truthy :: "js_value \<Rightarrow> bool" where
  "truthy JUndefined = False"
| "truthy JNull = False"
| "truthy (JBool b) = b"
| "truthy (JNum n) = (n \<noteq> 0)"
| "truthy (JStr str) = (str \<noteq> [])"
| "truthy (JArr vs) = True"
| "truthy (JObj kvs) = True"

text \<open>
  The property read \<open>v.prop\<close>, for the property names this program reads (none of them
  is a built-in property of a string, number or array): a TypeError on \<open>undefined\<close> and
  \<open>null\<close>, \<open>undefined\<close> for a missing field.
\<close>

fun get_prop :: "js_value \<Rightarrow> string \<Rightarrow> js_error + js_value" where
  "get_prop JUndefined prop = Inl (TypeError (cannot_read prop))"
| "get_prop JNull prop = Inl (TypeError (cannot_read prop))"
| "get_prop (JObj kvs) prop =
     Inr (case map_of kvs prop of None \<Rightarrow> JUndefined | Some v \<Rightarrow> v)"
| "get_prop v prop = Inr JUndefined"

definition bind_error :: "js_error + 'a \<Rightarrow> ('a \<Rightarrow> js_error + 'b) \<Rightarrow> js_error + 'b" where
  "bind_error m f = (case m of Inl e \<Rightarrow> Inl e | Inr v \<Rightarrow> f v)"

text \<open>\<open>try { body } catch { handler }\<close>: every exception of the body goes to the handler.\<close>

definition try_catch ::
  "js_error + 'a \<Rightarrow> (js_error \<Rightarrow> js_error + 'a) \<Rightarrow> js_error + 'a" where
  "try_catch block handler = (case block of Inl e \<Rightarrow> handler e | Inr v \<Rightarrow> Inr v)"

definition digit :: "nat \<Rightarrow> char" where
  "digit d = char_of (48 + d)"

fun show_nat :: "nat \<Rightarrow> string" where
  "show_nat n = (if n < 10 then [digit n] else show_nat (n div 10) @ [digit (n mod 10)])"

declare show_nat.simps [simp del]

record request =
  landmarks :: "real list list"
  req_method :: string

record response =
  ok :: bool
  body :: string

text \<open>
  What the handlers take from outside the program: the localisation table behind
  \<open>t(key, ...args)\<close> (\<open>./translations\<close>), the clock, the JSON functions and string
  conversion of the engine, the detector-driven part of \<open>extractLandmarksFromVideo\<close>
  (the log lines and progress it reports through its callbacks, and either the frames it
  collected or the message of its rejection), the answer of the translation service, and
  whether the camera and the local storage can be used.
\<close>

record environment =
  t_lookup :: "string \<Rightarrow> string list \<Rightarrow> string"
  toLocaleTimeString :: string
  toLocaleString :: string
  Date_now :: real
  JSON_parse :: "string \<Rightarrow> string + js_value"
  JSON_stringify :: "js_value \<Rightarrow> string"
  String_of :: "js_value \<Rightarrow> string"
  translationMethods :: "string \<Rightarrow> js_value"
  video_logs :: "string list"
  video_progress :: "nat option"
  video_outcome :: "string + frame list"
  fetch :: "request \<Rightarrow> js_error + response"
  getUserMedia_ok :: bool
  localStorage_ok :: bool

section \<open>Component state\<close>

record translation_results =
  gloss :: js_value
  translation :: js_value
  confidence :: js_value
  method_label :: js_value
  processingTime :: js_value
  landmarksShape :: js_value

text \<open>
  The state variables and refs of \<open>SignLanguageTranslator\<close> that the translation handler
  and the history functions read or write.  \<open>storedHistory\<close> is the local-storage item
  \<open>translationHistory\<close>, \<open>sentRequests\<close> the requests posted to \<open>CONFIG.BACKEND_URL\<close>.
  Speech output and the state of the secondary translation panel are left out.
\<close>

record app_state =
  "file" :: "string option"
  inputMode :: string
  isProcessing :: bool
  progress :: nat
  currentStage :: string
  results :: "translation_results option"
  error :: "string option"
  selectedMethod :: string
  extractionLog :: "string list"
  translationHistory :: "js_value list"
  isCameraActive :: bool
  realtimeLandmarks :: "frame list"
  storedHistory :: "string option"
  sentRequests :: "request list"

definition log_line :: "environment \<Rightarrow> string \<Rightarrow> string" where
  "log_line env msg = toLocaleTimeString env @ '': '' @ msg"

definition append_log :: "environment \<Rightarrow> string \<Rightarrow> app_state \<Rightarrow> app_state" where
  "append_log env msg s = s\<lparr>extractionLog := extractionLog s @ [log_line env msg]\<rparr>"

section \<open>Camera\<close>

definition startCamera :: "environment \<Rightarrow> app_state \<Rightarrow> app_state" where
  "startCamera env s =
     (if getUserMedia_ok env then s\<lparr>isCameraActive := True\<rparr>
      else s\<lparr>error := Some ''Failed to access camera. Please ensure permissions are granted.''\<rparr>)"

definition stopCamera :: "app_state \<Rightarrow> app_state" where
  "stopCamera s = s\<lparr>isCameraActive := False\<rparr>"

section \<open>Translation history\<close>

text \<open>The effect on mount that loads the stored history.\<close>

definition loadHistory :: "environment \<Rightarrow> app_state \<Rightarrow> app_state" where
  "loadHistory env s =
     (case storedHistory s of
        None \<Rightarrow> s
      | Some raw \<Rightarrow>
          if raw = [] then s
          else (case JSON_parse env raw of
                  Inl msg \<Rightarrow> s
                | Inr (JArr parsed) \<Rightarrow> s\<lparr>translationHistory := take 10 parsed\<rparr>
                | Inr other \<Rightarrow> s))"

definition clearHistory :: "environment \<Rightarrow> app_state \<Rightarrow> app_state" where
  "clearHistory env s =
     s\<lparr>storedHistory := (if localStorage_ok env then None else storedHistory s),
       translationHistory := []\<rparr>"

text \<open>
  \<open>deleteHistoryItem\<close> filters on \<open>rec.id !== recordId\<close>.  Strict inequality
  compares numbers, strings, booleans, \<open>null\<close> and \<open>undefined\<close> by value, and arrays
  and objects by identity: \<open>same_object\<close> says whether the two are one object.  The
  argument \<open>aliases\<close> lists the positions of the history entries whose \<open>id\<close> is the
  very object passed as \<open>recordId\<close>.  A stored entry that is \<open>null\<close> makes the read
  of \<open>rec.id\<close> raise, and the handler ends without a change.
\<close>

fun is_primitive :: "js_value \<Rightarrow> bool" where
  "is_primitive (JArr vs) = False"
| "is_primitive (JObj kvs) = False"
| "is_primitive v = True"

definition strict_neq :: "js_value \<Rightarrow> js_value \<Rightarrow> bool \<Rightarrow> bool" where
  "strict_neq a b same_object =
     (if is_primitive a \<or> is_primitive b then a \<noteq> b else \<not> same_object)"

fun filter_ids ::
  "js_value \<Rightarrow> nat list \<Rightarrow> nat \<Rightarrow> js_value list \<Rightarrow> js_error + js_value list" where
  "filter_ids recordId aliases k [] = Inr []"
| "filter_ids recordId aliases k (rec # recs) =
     bind_error (get_prop rec ''id'') (\<lambda>rid.
       bind_error (filter_ids recordId aliases (Suc k) recs) (\<lambda>kept.
         Inr (if strict_neq rid recordId (k \<in> set aliases) then rec # kept else kept)))"

definition deleteHistoryItem ::
  "environment \<Rightarrow> js_value \<Rightarrow> nat list \<Rightarrow> app_state \<Rightarrow> app_state" where
  "deleteHistoryItem env recordId aliases s =
     (case filter_ids recordId aliases 0 (translationHistory s) of
        Inl e \<Rightarrow> s
      | Inr updatedHistory \<Rightarrow>
          s\<lparr>translationHistory := updatedHistory,
            storedHistory := (if localStorage_ok env
                              then Some (JSON_stringify env (JArr updatedHistory))
                              else storedHistory s)\<rparr>)"

text \<open>
  The record of a finished translation and the updater passed to
  \<open>setTranslationHistory\<close>; \<open>sent_method\<close> is the method stored in the record.
\<close>

definition history_record :: "environment \<Rightarrow> string \<Rightarrow> js_value \<Rightarrow> js_error + js_value" where
  "history_record env sent_method data =
     bind_error (get_prop data ''translation'') (\<lambda>tr.
       bind_error (get_prop data ''confidence'') (\<lambda>conf.
         Inr (JObj [(''id'', JNum (Date_now env)),
                    (''time'', JStr (toLocaleString env)),
                    (''translation'', tr),
                    (''confidence'', if truthy conf then conf else JNum 0),
                    (''method'', JStr sent_method)])))"

definition append_history :: "environment \<Rightarrow> string \<Rightarrow> js_value \<Rightarrow> app_state \<Rightarrow> app_state" where
  "append_history env sent_method data s =
     (case history_record env sent_method data of
        Inl e \<Rightarrow> s
      | Inr record \<Rightarrow>
          (let next = take 10 (record # translationHistory s) in
           s\<lparr>translationHistory := next,
             storedHistory := (if localStorage_ok env
                               then Some (JSON_stringify env (JArr next))
                               else storedHistory s)\<rparr>))"

section \<open>Translation handler: \<open>handleTranslate\<close> (src/src/App.jsx)\<close>

definition begin_translation :: "app_state \<Rightarrow> app_state" where
  "begin_translation s =
     (let s1 = s\<lparr>isProcessing := True, progress := 0, error := None, results := None,
                 extractionLog := []\<rparr>
      in if isCameraActive s then stopCamera s1 else s1)"

text \<open>
  The live branch: the frames collected while recording are normalised in place.  The
  padding loop pushes onto the array held by \<open>realtimeLandmarksRef\<close> itself, so the ref
  sees the padded sequence; truncation builds a new array.
\<close>

definition live_extraction :: "environment \<Rightarrow> app_state \<Rightarrow> app_state \<times> (js_error + real list list)" where
  "live_extraction env s =
     (let originalFrameCount = length (realtimeLandmarks s);
          s1 = append_log env (''Using real-time extracted landmarks ('' @
                 show_nat originalFrameCount @ '' frames)'') s;
          landmarksList = normalize_seq (realtimeLandmarks s) MAX_SEQ_LEN;
          s2 = (if int originalFrameCount > MAX_SEQ_LEN
                then append_log env (''Truncating from '' @ show_nat originalFrameCount @
                       '' frames to '' @ show_nat (nat MAX_SEQ_LEN) @ '' frames'') s1
                else if int originalFrameCount < MAX_SEQ_LEN
                then (append_log env (''Padding from '' @ show_nat originalFrameCount @
                       '' frames to '' @ show_nat (nat MAX_SEQ_LEN) @ '' frames (added '' @
                       show_nat (nat (MAX_SEQ_LEN - int originalFrameCount)) @
                       '' padding frames)'') s1)
                     \<lparr>realtimeLandmarks := landmarksList\<rparr>
                else append_log env (''Using exactly '' @ show_nat originalFrameCount @
                       '' frames (no padding or truncation needed)'') s1)
      in (s2\<lparr>progress := 50\<rparr>, Inr (map concat landmarksList)))"

text \<open>
  The log lines \<open>extractLandmarksFromVideo\<close> writes after its frame loop, around the
  truncate-or-pad step.
\<close>

definition normalization_logs :: "environment \<Rightarrow> frame list \<Rightarrow> string list" where
  "normalization_logs env landmarksList =
     (let n = length landmarksList;
          normalized = normalize_seq landmarksList MAX_SEQ_LEN
      in map (log_line env)
           ([t_lookup env ''log_extracted_frames'' [show_nat n]] @
            (if int n > MAX_SEQ_LEN
             then [t_lookup env ''log_truncating'' [show_nat n, show_nat (nat MAX_SEQ_LEN)]]
             else if int n < MAX_SEQ_LEN
             then [t_lookup env ''log_padding''
                     [show_nat n, show_nat (nat MAX_SEQ_LEN), show_nat (nat (MAX_SEQ_LEN - int n))]]
             else []) @
            [t_lookup env ''log_final_sequence'' [show_nat (length normalized)],
             t_lookup env ''log_landmark_extraction_complete'' []]))"

definition extractLandmarksFromVideo ::
  "environment \<Rightarrow> app_state \<Rightarrow> app_state \<times> (js_error + real list list)" where
  "extractLandmarksFromVideo env s =
     (let s1 = s\<lparr>extractionLog := extractionLog s @ video_logs env,
                 progress := (case video_progress env of None \<Rightarrow> progress s | Some p \<Rightarrow> p)\<rparr>
      in case video_outcome env of
           Inl errMsg \<Rightarrow> (s1, Inl (Error errMsg))
         | Inr landmarksList \<Rightarrow>
             (s1\<lparr>extractionLog := extractionLog s1 @ normalization_logs env landmarksList\<rparr>,
              Inr (map concat (normalize_seq landmarksList MAX_SEQ_LEN))))"

definition extraction_stage ::
  "environment \<Rightarrow> app_state \<Rightarrow> app_state \<times> (js_error + real list list)" where
  "extraction_stage env s =
     (let s1 = s\<lparr>currentStage := t_lookup env ''extractingLandmarks'' [],
                 extractionLog :=
                   [log_line env (t_lookup env ''log_starting_landmark_extraction'' [])]\<rparr>
      in if inputMode s = ''record'' \<and> length (realtimeLandmarks s) > 0
         then live_extraction env s1
         else (case extractLandmarksFromVideo env s1 of
                 (s2, Inl e) \<Rightarrow> (s2, Inl e)
               | (s2, Inr flatLandmarks) \<Rightarrow> (s2\<lparr>progress := 50\<rparr>, Inr flatLandmarks)))"

text \<open>
  The handling of a response that is not ok.  The \<open>throw\<close> of the parsed message stands
  inside the \<open>try\<close> block whose \<open>catch\<close> throws the truncated raw text.
\<close>

definition error_response :: "environment \<Rightarrow> string \<Rightarrow> js_error + unit" where
  "error_response env errorText =
     try_catch
       (case JSON_parse env errorText of
          Inl msg \<Rightarrow> Inl (SyntaxError msg)
        | Inr errorData \<Rightarrow>
            bind_error (get_prop errorData ''error'') (\<lambda>v.
              Inl (Error (if truthy v then String_of env v else ''Translation failed''))))
       (\<lambda>caught. Inl (Error (''Server error: '' @ take 100 errorText @ ''...'')))"

definition make_results ::
  "environment \<Rightarrow> app_state \<Rightarrow> js_value \<Rightarrow> js_error + translation_results" where
  "make_results env s data =
     bind_error (get_prop data ''gloss'') (\<lambda>g.
     bind_error (get_prop data ''translation'') (\<lambda>tr.
     bind_error (get_prop data ''confidence'') (\<lambda>conf.
     bind_error (get_prop conf ''overall'') (\<lambda>overall.
     bind_error (get_prop data ''timing'') (\<lambda>timing.
     bind_error (if timing = JUndefined \<or> timing = JNull then Inr JUndefined
                 else get_prop timing ''total'') (\<lambda>total.
     bind_error (get_prop data ''landmarks_shape'') (\<lambda>shape.
       Inr \<lparr>gloss = g, translation = tr, confidence = overall,
            method_label = translationMethods env (selectedMethod s),
            processingTime = (if truthy total then total else JStr ''N/A''),
            landmarksShape = shape\<rparr>)))))))"

text \<open>
  The second stage, from the request to the history entry.  \<open>sent_method\<close> is the
  \<open>method\<close> written into the request body and into the history record: the literal
  \<open>"reranked_s2g_beam_g2t"\<close> in src/src/App.jsx, \<open>selectedMethod\<close> in the earlier
  version of the handler (src/unnamed/part_000); the two texts agree otherwise.
\<close>

definition translation_stage ::
  "environment \<Rightarrow> string \<Rightarrow> real list list \<Rightarrow> app_state \<Rightarrow> app_state \<times> (js_error + unit)" where
  "translation_stage env sent_method extractedLandmarks s =
     (let req = \<lparr>landmarks = extractedLandmarks, req_method = sent_method\<rparr>;
          s1 = (append_log env (t_lookup env ''log_sending_landmarks'' [])
                  (s\<lparr>currentStage := t_lookup env ''translatingSignLanguage'' []\<rparr>))
                 \<lparr>sentRequests := sentRequests s @ [req]\<rparr>
      in case fetch env req of
           Inl e \<Rightarrow> (s1, Inl e)
         | Inr resp \<Rightarrow>
             (case (if \<not> ok resp then error_response env (body resp) else Inr ()) of
                Inl e \<Rightarrow> (s1, Inl e)
              | Inr u \<Rightarrow>
                  (case JSON_parse env (body resp) of
                     Inl msg \<Rightarrow> (s1, Inl (SyntaxError msg))
                   | Inr data \<Rightarrow>
                       (let s2 = s1\<lparr>progress := 100\<rparr> in
                        case make_results env s2 data of
                          Inl e \<Rightarrow> (s2, Inl e)
                        | Inr res \<Rightarrow>
                            (append_log env (t_lookup env ''log_translation_complete'' [])
                               (append_history env sent_method data
                                  (s2\<lparr>results := Some res\<rparr>)),
                             Inr ())))))"

definition catch_block :: "environment \<Rightarrow> js_error \<Rightarrow> app_state \<Rightarrow> app_state" where
  "catch_block env err s =
     append_log env (t_lookup env ''log_error_prefix'' [message err])
       (s\<lparr>error := Some (if message err \<noteq> [] then message err
                          else t_lookup env ''translationFailedTryAgain'' [])\<rparr>)"

definition finally_block :: "environment \<Rightarrow> app_state \<Rightarrow> app_state" where
  "finally_block env s =
     (let s1 = s\<lparr>isProcessing := False, currentStage := []\<rparr>
      in if inputMode s = ''record'' then startCamera env s1 else s1)"

text \<open>Steps 2 and 3 of the orchestrator: the body of the \<open>try\<close> block.\<close>

definition try_block :: "environment \<Rightarrow> app_state \<Rightarrow> app_state \<times> (js_error + unit)" where
  "try_block env s =
     (case extraction_stage env s of
        (s1, Inl e) \<Rightarrow> (s1, Inl e)
      | (s1, Inr extractedLandmarks) \<Rightarrow>
          translation_stage env ''reranked_s2g_beam_g2t'' extractedLandmarks s1)"

definition handleTranslate :: "environment \<Rightarrow> app_state \<Rightarrow> app_state" where
  "handleTranslate env s =
     (if file s = None
      then s\<lparr>error := Some (if inputMode s = ''upload''
                             then ''Please select a video file first''
                             else ''Please record a video first'')\<rparr>
      else finally_block env
             (case try_block env (begin_translation s) of
                (s1, Inl err) \<Rightarrow> catch_block env err s1
              | (s1, Inr u) \<Rightarrow> s1))"

section \<open>The earlier translation handler (src/unnamed/part_000)\<close>

text \<open>
  This version has no live branch: it always extracts from the video, collects the log
  lines locally and installs them once extraction has returned.
\<close>

definition extractLandmarksFromVideo_part_000 ::
  "environment \<Rightarrow> js_error + (real list list \<times> string list)" where
  "extractLandmarksFromVideo_part_000 env =
     (case video_outcome env of
        Inl errMsg \<Rightarrow> Inl (Error errMsg)
      | Inr landmarksList \<Rightarrow>
          Inr (map concat (normalize_seq landmarksList MAX_SEQ_LEN),
               video_logs env @ normalization_logs env landmarksList))"

definition try_block_part_000 ::
  "environment \<Rightarrow> app_state \<Rightarrow> app_state \<times> (js_error + unit)" where
  "try_block_part_000 env s =
     (let s1 = append_log env (t_lookup env ''log_starting_landmark_extraction'' [])
                 (s\<lparr>currentStage := t_lookup env ''extractingLandmarks'' []\<rparr>)
      in case extractLandmarksFromVideo_part_000 env of
           Inl e \<Rightarrow> (s1, Inl e)
         | Inr (extractedLandmarks, logs) \<Rightarrow>
             translation_stage env (selectedMethod s) extractedLandmarks
               (s1\<lparr>extractionLog := logs, progress := 50\<rparr>))"

definition handleTranslate_part_000 :: "environment \<Rightarrow> app_state \<Rightarrow> app_state" where
  "handleTranslate_part_000 env s =
     (if file s = None
      then s\<lparr>error := Some (if inputMode s = ''upload''
                             then ''Please select a video file first''
                             else ''Please record a video first'')\<rparr>
      else finally_block env
             (case try_block_part_000 env (begin_translation s) of
                (s1, Inl err) \<Rightarrow> catch_block env err s1
              | (s1, Inr u) \<Rightarrow> s1))"

text \<open>
  The states the component can reach, as far as the history is concerned: it starts
  empty, only the four functions above assign it, and every other handler leaves it as
  it is.
\<close>

inductive reachable :: "app_state \<Rightarrow> bool" where
  initial: "translationHistory s = [] \<Longrightarrow> reachable s"
| other: "reachable s \<Longrightarrow> translationHistory s' = translationHistory s \<Longrightarrow> reachable s'"
| load: "reachable s \<Longrightarrow> reachable (loadHistory env s)"
| clear: "reachable s \<Longrightarrow> reachable (clearHistory env s)"
| delete: "reachable s \<Longrightarrow> reachable (deleteHistoryItem env recordId aliases s)"
| translate: "reachable s \<Longrightarrow> reachable (handleTranslate env s)"

section \<open>A concrete run\<close>

text \<open>
  An environment and a state to evaluate the handlers on: one frame was recorded, the
  video holds one frame, and the translation service cannot be reached
  (\<open>sample_env\<close>) or answers with a translation (\<open>answering_env\<close>).  In
  \<open>stored_state\<close> the local storage holds eleven records of earlier translations,
  the most recent first, which \<open>storage_env\<close> parses.
\<close>

definition sample_env :: environment where
  "sample_env =
     \<lparr>t_lookup = (\<lambda>key args. key),
      toLocaleTimeString = ''10:00:00'',
      toLocaleString = ''1/1/2026, 10:00:00'',
      Date_now = 1767261600000,
      JSON_parse = (\<lambda>txt. Inl ''Unexpected token''),
      JSON_stringify = (\<lambda>v. ''[]''),
      String_of = (\<lambda>v. ''''),
      translationMethods = (\<lambda>key. JStr key),
      video_logs = [],
      video_progress = None,
      video_outcome = Inr [zeroHand @ zeroHand],
      fetch = (\<lambda>req. Inl (TypeError ''Failed to fetch'')),
      getUserMedia_ok = True,
      localStorage_ok = True\<rparr>"

definition sample_state :: app_state where
  "sample_state =
     \<lparr>file = Some ''clip.webm'',
      inputMode = ''record'',
      isProcessing = False,
      progress = 0,
      currentStage = [],
      results = None,
      error = None,
      selectedMethod = ''s2g_greedy_g2t'',
      extractionLog = [],
      translationHistory = [],
      isCameraActive = True,
      realtimeLandmarks = [zeroHand @ zeroHand],
      storedHistory = None,
      sentRequests = []\<rparr>"

definition answering_response :: response where
  \<open>answering_response =
     \<lparr>ok = True,
      body = ''{"gloss":"HALLO","translation":"Hallo","confidence":{"overall":1}}''\<rparr>\<close>

definition answering_env :: environment where
  "answering_env =
     sample_env
       \<lparr>JSON_parse := (\<lambda>txt. Inr (JObj [(''gloss'', JStr ''HALLO''),
                                        (''translation'', JStr ''Hallo''),
                                        (''confidence'', JObj [(''overall'', JNum 1)])])),
        fetch := (\<lambda>req. Inr answering_response)\<rparr>"

definition stored_record :: "nat \<Rightarrow> js_value" where
  "stored_record n =
     JObj [(''id'', JNum (1767258000000 + real n)),
           (''time'', JStr ''1/1/2026, 09:00:00''),
           (''translation'', JStr ''Hallo''),
           (''confidence'', JObj [(''overall'', JNum 1)]),
           (''method'', JStr ''reranked_s2g_beam_g2t'')]"

definition stored_text :: string where
  \<open>stored_text = ''[{"id":1767258000011,"time":"1/1/2026, 09:00:00","translation":"Hallo","confidence":{"overall":1},"method":"reranked_s2g_beam_g2t"},{"id":1767258000010,"time":"1/1/2026, 09:00:00","translation":"Hallo","confidence":{"overall":1},"method":"reranked_s2g_beam_g2t"},{"id":1767258000009,"time":"1/1/2026, 09:00:00","translation":"Hallo","confidence":{"overall":1},"method":"reranked_s2g_beam_g2t"},{"id":1767258000008,"time":"1/1/2026, 09:00:00","translation":"Hallo","confidence":{"overall":1},"method":"reranked_s2g_beam_g2t"},{"id":1767258000007,"time":"1/1/2026, 09:00:00","translation":"Hallo","confidence":{"overall":1},"method":"reranked_s2g_beam_g2t"},{"id":1767258000006,"time":"1/1/2026, 09:00:00","translation":"Hallo","confidence":{"overall":1},"method":"reranked_s2g_beam_g2t"},{"id":1767258000005,"time":"1/1/2026, 09:00:00","translation":"Hallo","confidence":{"overall":1},"method":"reranked_s2g_beam_g2t"},{"id":1767258000004,"time":"1/1/2026, 09:00:00","translation":"Hallo","confidence":{"overall":1},"method":"reranked_s2g_beam_g2t"},{"id":1767258000003,"time":"1/1/2026, 09:00:00","translation":"Hallo","confidence":{"overall":1},"method":"reranked_s2g_beam_g2t"},{"id":1767258000002,"time":"1/1/2026, 09:00:00","translation":"Hallo","confidence":{"overall":1},"method":"reranked_s2g_beam_g2t"},{"id":1767258000001,"time":"1/1/2026, 09:00:00","translation":"Hallo","confidence":{"overall":1},"method":"reranked_s2g_beam_g2t"}]''\<close>

definition storage_env :: environment where
  "storage_env =
     sample_env
       \<lparr>JSON_parse := (\<lambda>txt. Inr (JArr (map stored_record [11, 10, 9, 8, 7, 6, 5, 4, 3, 2, 1])))\<rparr>"

definition stored_state :: app_state where
  "stored_state = sample_state\<lparr>storedHistory := Some stored_text\<rparr>"

section \<open>Loop lemmas\<close>

lemma uniformTruncate_loop_eq:
  "uniformTruncate_loop s T i out =
     out @ map (\<lambda>k. s ! nat (sample_idx (int (length s)) T k)) [i..<nat T]"
proof (induction s T i out rule: uniformTruncate_loop.induct)
  case (1 s T i out)
  show ?case
  proof (cases "int i < T")
    case True
    then have "i < nat T" by simp
    then have "[i..<nat T] = i # [Suc i..<nat T]" by (simp add: upt_conv_Cons)
    with True "1.IH" show ?thesis
      by (subst uniformTruncate_loop.simps) simp
  next
    case False
    then have "[i..<nat T] = []" by simp
    with False show ?thesis
      by (subst uniformTruncate_loop.simps) simp
  qed
qed

lemma pad_loop_eq:
  "pad_loop l padLen p = l @ replicate (nat padLen - p) padFrame"
proof (induction l padLen p rule: pad_loop.induct)
  case (1 l padLen p)
  show ?case
  proof (cases "int p < padLen")
    case True
    then have "nat padLen - p = Suc (nat padLen - Suc p)" by linarith
    with True "1.IH" show ?thesis
      by (subst pad_loop.simps) (simp add: replicate_append_same)
  next
    case False
    then have "nat padLen - p = 0" by linarith
    with False show ?thesis
      by (subst pad_loop.simps) simp
  qed
qed

lemma sample_idx_in_range:
  assumes "T < N" "int i < T"
  shows "0 \<le> sample_idx N T i" "sample_idx N T i < N"
proof -
  have N: "0 \<le> N - 1" using assms by linarith
  show "0 \<le> sample_idx N T i"
    unfolding sample_idx_def using N by (simp add: pos_imp_zdiv_nonneg_iff)
  show "sample_idx N T i < N"
  proof (cases "T \<le> 1")
    case True
    with assms have "i = 0" by linarith
    then show ?thesis using assms unfolding sample_idx_def by simp
  next
    case False
    then have m: "max (T - 1) 1 = T - 1" and pos: "0 < T - 1" by simp_all
    have "int i * (N - 1) \<le> (T - 1) * (N - 1)"
      using assms N by (intro mult_right_mono) simp_all
    then have "int i * (N - 1) div (T - 1) \<le> (T - 1) * (N - 1) div (T - 1)"
      by (rule zdiv_mono1) (rule pos)
    also have "\<dots> = N - 1" using pos by simp
    finally show ?thesis unfolding sample_idx_def m by simp
  qed
qed

lemma uniformTruncate_sampling:
  assumes "T < int (length s)" "0 < T"
  shows "uniformTruncate s T =
           map (\<lambda>k. s ! nat (sample_idx (int (length s)) T k)) [0..<nat T]"
  using assms by (simp add: uniformTruncate_def uniformTruncate_loop_eq)

lemma length_normalize_seq:
  "int (length (normalize_seq s T)) = max 0 T"
proof -
  consider "T < int (length s)" "T \<le> 0" | "T < int (length s)" "0 < T"
    | "int (length s) < T" | "int (length s) = T" by linarith
  then show ?thesis
  proof cases
    case 1
    then show ?thesis by (simp add: normalize_seq_def uniformTruncate_def)
  next
    case 2
    then show ?thesis by (simp add: normalize_seq_def uniformTruncate_sampling)
  next
    case 3
    then show ?thesis by (simp add: normalize_seq_def pad_loop_eq)
  next
    case 4
    then show ?thesis by (simp add: normalize_seq_def)
  qed
qed

section \<open>Normalizer lemmas\<close>

lemma normalize_neg: "T < 0 \<Longrightarrow> normalize_seq s T = []"
  by (simp add: normalize_seq_def uniformTruncate_def)

lemma normalize_pad:
  "int (length s) < T \<Longrightarrow> normalize_seq s T = s @ replicate (nat T - length s) padFrame"
  by (simp add: normalize_seq_def pad_loop_eq nat_diff_distrib')

lemma normalize_sample:
  assumes "T < int (length s)" "0 < T"
  shows "normalize_seq s T = map (\<lambda>k. s ! nat (sample_idx (int (length s)) T k)) [0..<nat T]"
  using assms by (simp add: normalize_seq_def uniformTruncate_sampling)

section \<open>Claims about the sequence normalizer\<close>

text \<open>
  C1.  For every raw sequence and every target length \<open>T\<close> (a length, so not negative),
  the truncate-or-pad step with \<open>targetLen = T\<close> returns a sequence of exactly \<open>T\<close>
  frames; with \<open>CONFIG.MAX_SEQ_LEN\<close> that is 190.
\<close>

theorem normalize_length_exact:
  "(0 \<le> T \<longrightarrow> int (length (normalize_seq s T)) = T)
   \<and> length (normalize_seq s MAX_SEQ_LEN) = 190"
  using length_normalize_seq [of s T] length_normalize_seq [of s MAX_SEQ_LEN]
  by (simp add: MAX_SEQ_LEN_def)

theorem normalize_length_exact_witness:
  "(0::int) \<le> 3 \<and> int (length (normalize_seq [zeroHand @ zeroHand] 3)) = 3"
  using normalize_length_exact [of 3 "[zeroHand @ zeroHand]"] by simp

text \<open>
  C2.  When the raw sequence is longer than the target (\<open>N > T\<close>), output index \<open>i\<close>
  in \<open>[0, T)\<close> holds the source element at index
  \<open>floor(i * (N - 1) / max(T - 1, 1))\<close>, which lies inside the source; when \<open>T > 1\<close>
  the first and the last output elements are the first and the last input elements.
\<close>

theorem normalize_truncates_uniformly:
  assumes "T < int (length s)"
  shows "(\<forall>i. int i < T \<longrightarrow>
            nat ((int i * (int (length s) - 1)) div max (T - 1) 1) < length s \<and>
            normalize_seq s T ! i = s ! nat ((int i * (int (length s) - 1)) div max (T - 1) 1))
         \<and> (1 < T \<longrightarrow> hd (normalize_seq s T) = hd s \<and> last (normalize_seq s T) = last s)"
proof (intro conjI allI impI)
  fix i assume i: "int i < T"
  then have T: "0 < T" by linarith
  from sample_idx_in_range [OF assms i]
  show "nat ((int i * (int (length s) - 1)) div max (T - 1) 1) < length s"
    unfolding sample_idx_def by linarith
  from i have "i < nat T" by linarith
  then show "normalize_seq s T ! i = s ! nat ((int i * (int (length s) - 1)) div max (T - 1) 1)"
    by (simp add: normalize_sample [OF assms T] sample_idx_def)
next
  assume T: "1 < T"
  then have T0: "0 < T" by linarith
  have ne: "s \<noteq> []" using assms T by auto
  have n: "normalize_seq s T = map (\<lambda>k. s ! nat (sample_idx (int (length s)) T k)) [0..<nat T]"
    by (rule normalize_sample [OF assms T0])
  have len: "length (normalize_seq s T) = nat T" by (simp add: n)
  have nne: "normalize_seq s T \<noteq> []" using len T by auto
  have "hd (normalize_seq s T) = normalize_seq s T ! 0"
    using nne by (simp add: hd_conv_nth)
  also have "\<dots> = s ! nat (sample_idx (int (length s)) T 0)"
    using T by (simp add: n)
  also have "\<dots> = s ! 0" by (simp add: sample_idx_def)
  also have "\<dots> = hd s" using ne by (simp add: hd_conv_nth)
  finally show "hd (normalize_seq s T) = hd s" .
  have m: "max (T - 1) 1 = T - 1" using T by simp
  have k: "int (nat T - 1) = T - 1" using T by linarith
  have "sample_idx (int (length s)) T (nat T - 1) = int (length s) - 1"
    unfolding sample_idx_def m k using T by simp
  then have idx: "nat (sample_idx (int (length s)) T (nat T - 1)) = length s - 1"
    by linarith
  have "last (normalize_seq s T) = normalize_seq s T ! (nat T - 1)"
    using nne len by (simp add: last_conv_nth)
  also have "\<dots> = s ! (length s - 1)"
    using T idx by (simp add: n)
  also have "\<dots> = last s" using ne by (simp add: last_conv_nth)
  finally show "last (normalize_seq s T) = last s" .
qed

theorem normalize_truncates_uniformly_witness:
  "(2::int) < int (length [zeroHand, padFrame, []]) \<and>
   hd (normalize_seq [zeroHand, padFrame, []] 2) = zeroHand \<and>
   last (normalize_seq [zeroHand, padFrame, []] 2) = []"
  using normalize_truncates_uniformly [of 2 "[zeroHand, padFrame, []]"] by simp

text \<open>
  C3.  When the raw sequence is shorter than the target (\<open>N < T\<close>), the first \<open>N\<close>
  output elements are the input, and the remaining \<open>T - N\<close> are the pad frame: 42
  triples \<open>[-10, -10, -10]\<close>, that is 126 values \<open>-10\<close>.
\<close>

theorem normalize_pads_with_sentinel:
  assumes "int (length s) < T"
  shows "take (length s) (normalize_seq s T) = s
         \<and> drop (length s) (normalize_seq s T) = replicate (nat T - length s) padFrame
         \<and> padFrame = replicate 42 [-10, -10, -10]
         \<and> concat padFrame = replicate 126 (-10)"
proof -
  have "concat padFrame = replicate 126 (-10)"
    unfolding padFrame_def by (simp add: numeral_eq_Suc)
  with assms show ?thesis
    by (simp add: normalize_pad padFrame_def)
qed

theorem normalize_pads_with_sentinel_witness:
  "int (length [zeroHand]) < 3 \<and>
   normalize_seq [zeroHand] 3 = [zeroHand, padFrame, padFrame]"
proof -
  have h: "int (length [zeroHand]) < 3" by simp
  from normalize_pads_with_sentinel [OF h]
  have "take 1 (normalize_seq [zeroHand] 3) = [zeroHand]"
    and "drop 1 (normalize_seq [zeroHand] 3) = [padFrame, padFrame]"
    by (simp_all add: numeral_eq_Suc)
  then have "normalize_seq [zeroHand] 3 = [zeroHand, padFrame, padFrame]"
    by (metis append_take_drop_id append_Cons append_Nil)
  with h show ?thesis by simp
qed

text \<open>
  C4.  The normalizer is idempotent: normalising a normalised sequence again with the
  same target length changes nothing.
\<close>

theorem normalize_idempotent:
  "normalize_seq (normalize_seq s n) n = normalize_seq s n"
proof (cases "0 \<le> n")
  case True
  then have "int (length (normalize_seq s n)) = n"
    using length_normalize_seq [of s n] by simp
  then show ?thesis
    by (subst (1) normalize_seq_def) simp
next
  case False
  then have "normalize_seq s n = []" by (simp add: normalize_neg)
  with False show ?thesis by (simp add: normalize_neg)
qed

section \<open>Encoder lemmas\<close>

lemma assignHands_slots:
  "length lms \<le> length hds \<Longrightarrow>
   assignHands lms hds (l, r) =
     Inr ((case filter (\<lambda>d. fst d = ''Left'') (zip (map label hds) lms) of
             [] \<Rightarrow> l | d # ds \<Rightarrow> landmarkArray (snd (last (d # ds)))),
          (case filter (\<lambda>d. fst d = ''Right'') (zip (map label hds) lms) of
             [] \<Rightarrow> r | d # ds \<Rightarrow> landmarkArray (snd (last (d # ds)))))"
proof (induction lms arbitrary: hds l r)
  case Nil
  then show ?case by simp
next
  case (Cons hl rest)
  then obtain h hd_rest where hds: "hds = h # hd_rest" by (cases hds) auto
  with Cons.prems have len: "length rest \<le> length hd_rest" by simp
  show ?case
    unfolding hds
    by (simp add: Cons.IH [OF len] split: list.splits)
qed

lemma encoder_refines_spec:
  assumes "wellformed_result r"
  shows "extractTwoHandLandmarks r =
           Inr (slot_of_spec ''Left'' (detections_of r) @ slot_of_spec ''Right'' (detections_of r))"
proof (cases "multiHandLandmarks r")
  case None
  then show ?thesis
    by (simp add: extractTwoHandLandmarks_def detections_of_def slot_of_spec_def zeroHand_def)
next
  case (Some lms)
  note lms = this
  show ?thesis
  proof (cases "multiHandedness r")
    case None
    with lms show ?thesis
      by (simp add: extractTwoHandLandmarks_def detections_of_def slot_of_spec_def zeroHand_def)
  next
    case (Some hds)
    with lms assms have len: "length lms \<le> length hds"
      by (simp add: wellformed_result_def)
    show ?thesis
      using lms Some
      by (simp add: extractTwoHandLandmarks_def detections_of_def slot_of_spec_def
            zeroHand_def assignHands_slots [OF len])
  qed
qed

lemma length_slot_of_spec:
  "list_all (\<lambda>d. length (snd d) = 21) dets \<Longrightarrow> length (slot_of_spec lbl dets) = 21"
proof -
  assume a: "list_all (\<lambda>d. length (snd d) = 21) dets"
  show ?thesis
  proof (cases "filter (\<lambda>d. fst d = lbl) dets")
    case Nil
    then show ?thesis by (simp add: slot_of_spec_def)
  next
    case (Cons d ds)
    then have "last (d # ds) \<in> set (filter (\<lambda>d. fst d = lbl) dets)"
      by (metis last_in_set list.distinct(1))
    then have "last (d # ds) \<in> set dets" by simp
    with a have "length (snd (last (d # ds))) = 21"
      by (simp add: list_all_iff)
    with Cons show ?thesis
      by (simp add: slot_of_spec_def landmarkArray_def)
  qed
qed

lemma points_slot_of_spec:
  "list_all (\<lambda>p. length p = 3) (slot_of_spec lbl dets)"
  by (simp add: slot_of_spec_def landmarkArray_def list_all_iff split: list.splits)

lemma wellformed_detections:
  "wellformed_result r \<Longrightarrow> list_all (\<lambda>d. length (snd d) = 21) (detections_of r)"
  by (auto simp: wellformed_result_def detections_of_def list_all_iff
      split: option.splits dest: set_zip_rightD)

lemma length_concat_points:
  "list_all (\<lambda>p. length p = 3) f \<Longrightarrow> length (concat f) = 3 * length f"
  by (induction f) simp_all

section \<open>Claims about the frame encoder\<close>



text \<open>
  C6.  Every frame record has 126 numeric components, 42 points of 3 coordinates: the
  encoder's frame for a detection result whose hands have 21 landmarks each, and the pad
  frame.
\<close>

theorem frame_has_126_components:
  "(wellformed_result r \<longrightarrow>
      (\<exists>f. extractTwoHandLandmarks r = Inr f \<and> length f = 42
           \<and> list_all (\<lambda>p. length p = 3) f \<and> length (concat f) = 126))
   \<and> length padFrame = 42 \<and> list_all (\<lambda>p. length p = 3) padFrame
   \<and> length (concat padFrame) = 126"
proof (intro conjI impI)
  assume wf: "wellformed_result r"
  let ?f = "slot_of_spec ''Left'' (detections_of r) @ slot_of_spec ''Right'' (detections_of r)"
  have e: "extractTwoHandLandmarks r = Inr ?f" by (rule encoder_refines_spec [OF wf])
  have len: "length ?f = 42"
    by (simp add: length_slot_of_spec [OF wellformed_detections [OF wf]])
  have pts: "list_all (\<lambda>p. length p = 3) ?f"
    by (simp add: points_slot_of_spec)
  have "length (concat ?f) = 126"
    using length_concat_points [OF pts] len by simp
  with e len pts show "\<exists>f. extractTwoHandLandmarks r = Inr f \<and> length f = 42
           \<and> list_all (\<lambda>p. length p = 3) f \<and> length (concat f) = 126"
    by blast
next
  show "length padFrame = 42" by (simp add: padFrame_def)
  show p: "list_all (\<lambda>p. length p = 3) padFrame" by (simp add: padFrame_def list_all_iff)
  show "length (concat padFrame) = 126"
    using length_concat_points [OF p] by (simp add: padFrame_def)
qed

theorem frame_has_126_components_witness:
  "wellformed_result
     \<lparr>multiHandLandmarks = Some [replicate 21 (Landmark 1 2 3)],
      multiHandedness = Some [Handedness ''Left'']\<rparr>
   \<and> (\<exists>f. extractTwoHandLandmarks
          \<lparr>multiHandLandmarks = Some [replicate 21 (Landmark 1 2 3)],
           multiHandedness = Some [Handedness ''Left'']\<rparr> = Inr f
        \<and> length (concat f) = 126)"
  using frame_has_126_components
    [of "\<lparr>multiHandLandmarks = Some [replicate 21 (Landmark 1 2 3)],
           multiHandedness = Some [Handedness ''Left'']\<rparr>"]
  by (auto simp: wellformed_result_def)

section \<open>Handler lemmas\<close>

lemma error_response_falls_back:
  "error_response env errorText =
     Inl (Error (''Server error: '' @ take 100 errorText @ ''...''))"
proof (cases "JSON_parse env errorText")
  case (Inl msg)
  then show ?thesis by (simp add: error_response_def try_catch_def)
next
  case (Inr errorData)
  then show ?thesis
    by (cases "get_prop errorData ''error''")
       (simp_all add: error_response_def try_catch_def bind_error_def)
qed

lemma append_log_fields [simp]:
  "translationHistory (append_log env msg s) = translationHistory s"
  "storedHistory (append_log env msg s) = storedHistory s"
  "results (append_log env msg s) = results s"
  "sentRequests (append_log env msg s) = sentRequests s"
  "error (append_log env msg s) = error s"
  "inputMode (append_log env msg s) = inputMode s"
  "selectedMethod (append_log env msg s) = selectedMethod s"
  "isProcessing (append_log env msg s) = isProcessing s"
  "currentStage (append_log env msg s) = currentStage s"
  "extractionLog (append_log env msg s) = extractionLog s @ [log_line env msg]"
  by (simp_all add: append_log_def)

lemma append_history_fields [simp]:
  "sentRequests (append_history env m data s) = sentRequests s"
  "results (append_history env m data s) = results s"
  "inputMode (append_history env m data s) = inputMode s"
  by (simp_all add: append_history_def Let_def split: sum.splits)

lemma begin_translation_fields [simp]:
  "translationHistory (begin_translation s) = translationHistory s"
  "storedHistory (begin_translation s) = storedHistory s"
  "results (begin_translation s) = None"
  "sentRequests (begin_translation s) = sentRequests s"
  "inputMode (begin_translation s) = inputMode s"
  "selectedMethod (begin_translation s) = selectedMethod s"
  "realtimeLandmarks (begin_translation s) = realtimeLandmarks s"
  by (simp_all add: begin_translation_def stopCamera_def Let_def)

lemma live_extraction_fields:
  assumes "live_extraction env s = (s1, r)"
  shows "translationHistory s1 = translationHistory s"
    and "storedHistory s1 = storedHistory s"
    and "results s1 = results s"
    and "sentRequests s1 = sentRequests s"
    and "inputMode s1 = inputMode s"
    and "selectedMethod s1 = selectedMethod s"
    and "r = Inr (map concat (normalize_seq (realtimeLandmarks s) MAX_SEQ_LEN))"
  using assms by (auto simp: live_extraction_def Let_def split: if_splits)

lemma extractLandmarksFromVideo_fields:
  assumes "extractLandmarksFromVideo env s = (s1, r)"
  shows "translationHistory s1 = translationHistory s"
    and "storedHistory s1 = storedHistory s"
    and "results s1 = results s"
    and "sentRequests s1 = sentRequests s"
    and "inputMode s1 = inputMode s"
    and "selectedMethod s1 = selectedMethod s"
  using assms by (auto simp: extractLandmarksFromVideo_def Let_def split: sum.splits)

lemma extraction_stage_fields:
  assumes "extraction_stage env s = (s1, r)"
  shows "translationHistory s1 = translationHistory s
       \<and> storedHistory s1 = storedHistory s
       \<and> results s1 = results s
       \<and> sentRequests s1 = sentRequests s
       \<and> inputMode s1 = inputMode s
       \<and> selectedMethod s1 = selectedMethod s"
proof -
  let ?s0 = "s\<lparr>currentStage := t_lookup env ''extractingLandmarks'' [],
               extractionLog :=
                 [log_line env (t_lookup env ''log_starting_landmark_extraction'' [])]\<rparr>"
  show ?thesis
  proof (cases "inputMode s = ''record'' \<and> length (realtimeLandmarks s) > 0")
    case True
    with assms have l: "live_extraction env ?s0 = (s1, r)"
      by (simp add: extraction_stage_def)
    from live_extraction_fields(1-6) [OF l] show ?thesis by simp
  next
    case False
    obtain s2 r2 where v: "extractLandmarksFromVideo env ?s0 = (s2, r2)"
      by (cases "extractLandmarksFromVideo env ?s0") auto
    from False assms v have s1: "s1 = s2 \<or> s1 = s2\<lparr>progress := 50\<rparr>"
      by (auto simp: extraction_stage_def split: sum.splits)
    from extractLandmarksFromVideo_fields [OF v] s1 show ?thesis by auto
  qed
qed

lemma extraction_stage_live:
  assumes "inputMode s = ''record''" "realtimeLandmarks s \<noteq> []"
  shows "snd (extraction_stage env s) =
           Inr (map concat (normalize_seq (realtimeLandmarks s) MAX_SEQ_LEN))"
proof -
  let ?s0 = "s\<lparr>currentStage := t_lookup env ''extractingLandmarks'' [],
               extractionLog :=
                 [log_line env (t_lookup env ''log_starting_landmark_extraction'' [])]\<rparr>"
  obtain s1 r where l: "live_extraction env ?s0 = (s1, r)"
    by (cases "live_extraction env ?s0") auto
  from assms l have "extraction_stage env s = (s1, r)"
    by (simp add: extraction_stage_def)
  with live_extraction_fields(7) [OF l] show ?thesis by simp
qed

lemma translation_stage_sent:
  "sentRequests (fst (translation_stage env m lm s)) =
     sentRequests s @ [\<lparr>landmarks = lm, req_method = m\<rparr>]"
  by (simp add: translation_stage_def Let_def split: sum.splits)

lemma translation_stage_failure:
  assumes "translation_stage env m lm s = (s1, Inl e)"
  shows "translationHistory s1 = translationHistory s"
    and "storedHistory s1 = storedHistory s"
    and "results s1 = results s"
    and "inputMode s1 = inputMode s"
  using assms
  by (auto simp: translation_stage_def Let_def split: sum.splits if_splits)

lemma catch_block_fields [simp]:
  "translationHistory (catch_block env err s) = translationHistory s"
  "storedHistory (catch_block env err s) = storedHistory s"
  "results (catch_block env err s) = results s"
  "sentRequests (catch_block env err s) = sentRequests s"
  "inputMode (catch_block env err s) = inputMode s"
  "extractionLog (catch_block env err s) =
     extractionLog s @ [log_line env (t_lookup env ''log_error_prefix'' [message err])]"
  "error (catch_block env err s) =
     Some (if message err \<noteq> [] then message err
           else t_lookup env ''translationFailedTryAgain'' [])"
  by (simp_all add: catch_block_def)

lemma finally_block_fields [simp]:
  "translationHistory (finally_block env s) = translationHistory s"
  "storedHistory (finally_block env s) = storedHistory s"
  "results (finally_block env s) = results s"
  "sentRequests (finally_block env s) = sentRequests s"
  "extractionLog (finally_block env s) = extractionLog s"
  "isProcessing (finally_block env s) = False"
  "currentStage (finally_block env s) = []"
  "error (finally_block env s) =
     (if inputMode s = ''record'' \<and> \<not> getUserMedia_ok env
      then Some ''Failed to access camera. Please ensure permissions are granted.''
      else error s)"
  by (simp_all add: finally_block_def startCamera_def Let_def)

lemma try_block_failure:
  assumes "try_block env s = (s1, Inl e)"
  shows "translationHistory s1 = translationHistory s
       \<and> storedHistory s1 = storedHistory s
       \<and> results s1 = results s
       \<and> inputMode s1 = inputMode s"
proof -
  obtain s2 r where x: "extraction_stage env s = (s2, r)"
    by (cases "extraction_stage env s") auto
  note f = extraction_stage_fields [OF x]
  show ?thesis
  proof (cases r)
    case (Inl e')
    with assms x have "s1 = s2" by (simp add: try_block_def)
    with f show ?thesis by simp
  next
    case (Inr lm)
    with assms x have
      t: "translation_stage env ''reranked_s2g_beam_g2t'' lm s2 = (s1, Inl e)"
      by (simp add: try_block_def)
    from translation_stage_failure [OF t] f show ?thesis by simp
  qed
qed

lemma handleTranslate_sent:
  assumes "file s \<noteq> None"
  shows "sentRequests (handleTranslate env s) =
           sentRequests s @
           (case snd (extraction_stage env (begin_translation s)) of
              Inl e \<Rightarrow> []
            | Inr lm \<Rightarrow> [\<lparr>landmarks = lm, req_method = ''reranked_s2g_beam_g2t''\<rparr>])"
proof -
  obtain s1 r where x: "extraction_stage env (begin_translation s) = (s1, r)"
    by (cases "extraction_stage env (begin_translation s)") auto
  from extraction_stage_fields [OF x]
  have sent: "sentRequests s1 = sentRequests s" by simp
  show ?thesis
  proof (cases r)
    case (Inl e)
    with assms x sent show ?thesis
      by (simp add: handleTranslate_def try_block_def)
  next
    case (Inr lm)
    obtain s2 r2 where
      t: "translation_stage env ''reranked_s2g_beam_g2t'' lm s1 = (s2, r2)"
      by (cases "translation_stage env ''reranked_s2g_beam_g2t'' lm s1") auto
    from translation_stage_sent [of env "''reranked_s2g_beam_g2t''" lm s1] t sent
    have "sentRequests s2 =
            sentRequests s @ [\<lparr>landmarks = lm, req_method = ''reranked_s2g_beam_g2t''\<rparr>]"
      by simp
    with assms x Inr t show ?thesis
      by (cases r2) (simp_all add: handleTranslate_def try_block_def)
  qed
qed

lemma handleTranslate_part_000_sent:
  assumes "file s \<noteq> None" "video_outcome env = Inr landmarksList"
  shows "sentRequests (handleTranslate_part_000 env s) =
           sentRequests s @
           [\<lparr>landmarks = map concat (normalize_seq landmarksList MAX_SEQ_LEN),
             req_method = selectedMethod s\<rparr>]"
proof -
  let ?lm = "map concat (normalize_seq landmarksList MAX_SEQ_LEN)"
  let ?s1 = "(append_log env (t_lookup env ''log_starting_landmark_extraction'' [])
               ((begin_translation s)\<lparr>currentStage := t_lookup env ''extractingLandmarks'' []\<rparr>))
             \<lparr>extractionLog := video_logs env @ normalization_logs env landmarksList,
               progress := 50\<rparr>"
  obtain s2 r2 where t: "translation_stage env (selectedMethod s) ?lm ?s1 = (s2, r2)"
    by (cases "translation_stage env (selectedMethod s) ?lm ?s1") auto
  from translation_stage_sent [of env "selectedMethod s" ?lm ?s1] t
  have sent: "sentRequests s2 =
                sentRequests s @ [\<lparr>landmarks = ?lm, req_method = selectedMethod s\<rparr>]"
    by simp
  from assms t have "try_block_part_000 env (begin_translation s) = (s2, r2)"
    by (simp add: try_block_part_000_def extractLandmarksFromVideo_part_000_def Let_def)
  with assms sent show ?thesis
    by (cases r2) (simp_all add: handleTranslate_part_000_def)
qed

lemma upload_branch_sends_fixed_method:
  assumes "file s \<noteq> None" "inputMode s = ''upload''" "video_outcome env = Inr landmarksList"
  shows "sentRequests (handleTranslate env s) =
           sentRequests s @
           [\<lparr>landmarks = map concat (normalize_seq landmarksList MAX_SEQ_LEN),
             req_method = ''reranked_s2g_beam_g2t''\<rparr>]"
proof -
  from assms have "snd (extraction_stage env (begin_translation s)) =
                     Inr (map concat (normalize_seq landmarksList MAX_SEQ_LEN))"
    by (simp add: extraction_stage_def extractLandmarksFromVideo_def Let_def)
  with assms show ?thesis by (simp add: handleTranslate_sent)
qed

lemma handleTranslate_with_file:
  "file s \<noteq> None \<Longrightarrow>
   handleTranslate env s =
     finally_block env
       (case try_block env (begin_translation s) of
          (s1, Inl err) \<Rightarrow> catch_block env err s1
        | (s1, Inr u) \<Rightarrow> s1)"
  by (auto simp: handleTranslate_def)

lemma make_results_history_record:
  "make_results env s data = Inr res \<Longrightarrow> \<exists>entry. history_record env m data = Inr entry"
  by (auto simp: make_results_def history_record_def bind_error_def split: sum.splits)

lemma append_history_history:
  "history_record env m data = Inr entry \<Longrightarrow>
   translationHistory (append_history env m data s) = take 10 (entry # translationHistory s)"
  by (simp add: append_history_def Let_def)

lemma translation_stage_results:
  assumes "translation_stage env m lm s = (s1, r)" "results s = None"
  shows "(r = Inr () \<and> results s1 \<noteq> None \<and>
           (\<exists>entry. translationHistory s1 = take 10 (entry # translationHistory s)))
         \<or> ((\<exists>e. r = Inl e) \<and> results s1 = None \<and> translationHistory s1 = translationHistory s)"
proof (cases "fetch env \<lparr>landmarks = lm, req_method = m\<rparr>")
  case (Inl e)
  with assms show ?thesis by (auto simp: translation_stage_def Let_def)
next
  case (Inr resp)
  note resp = this
  show ?thesis
  proof (cases "ok resp")
    case False
    with assms resp show ?thesis
      by (auto simp: translation_stage_def Let_def error_response_falls_back)
  next
    case True
    note okr = this
    show ?thesis
    proof (cases "JSON_parse env (body resp)")
      case (Inl msg)
      with assms resp okr show ?thesis by (auto simp: translation_stage_def Let_def)
    next
      case (Inr data)
      note data = this
      let ?s2 = "(append_log env (t_lookup env ''log_sending_landmarks'' [])
                    (s\<lparr>currentStage := t_lookup env ''translatingSignLanguage'' []\<rparr>))
                 \<lparr>sentRequests := sentRequests s @ [\<lparr>landmarks = lm, req_method = m\<rparr>],
                   progress := 100\<rparr>"
      show ?thesis
      proof (cases "make_results env ?s2 data")
        case (Inl e)
        with assms resp okr data show ?thesis
          by (auto simp: translation_stage_def Let_def)
      next
        case (Inr res)
        from make_results_history_record [OF Inr]
        obtain entry where h: "history_record env m data = Inr entry" by blast
        from assms resp okr data Inr
        have s1: "s1 = append_log env (t_lookup env ''log_translation_complete'' [])
                         (append_history env m data (?s2\<lparr>results := Some res\<rparr>))"
          and r: "r = Inr ()"
          by (auto simp: translation_stage_def Let_def)
        have "translationHistory s1 = take 10 (entry # translationHistory s)"
          unfolding s1 by (simp add: append_history_history [OF h])
        moreover have "results s1 \<noteq> None" unfolding s1 by simp
        ultimately show ?thesis using r by blast
      qed
    qed
  qed
qed

lemma try_block_results:
  assumes "try_block env s = (s1, r)" "results s = None"
  shows "(r = Inr () \<and> results s1 \<noteq> None \<and>
           (\<exists>entry. translationHistory s1 = take 10 (entry # translationHistory s)))
         \<or> ((\<exists>e. r = Inl e) \<and> results s1 = None \<and> translationHistory s1 = translationHistory s)"
proof -
  obtain s2 r2 where x: "extraction_stage env s = (s2, r2)"
    by (cases "extraction_stage env s") auto
  note f = extraction_stage_fields [OF x]
  show ?thesis
  proof (cases r2)
    case (Inl e)
    with assms x f show ?thesis by (auto simp: try_block_def)
  next
    case (Inr lm)
    with assms x have
      t: "translation_stage env ''reranked_s2g_beam_g2t'' lm s2 = (s1, r)"
      by (simp add: try_block_def)
    from f assms have "results s2 = None" by simp
    from translation_stage_results [OF t this] f show ?thesis by simp
  qed
qed

lemma handleTranslate_history:
  assumes "file s \<noteq> None"
  shows "(results (handleTranslate env s) \<noteq> None \<and>
           (\<exists>entry. translationHistory (handleTranslate env s) =
                        take 10 (entry # translationHistory s)))
         \<or> (results (handleTranslate env s) = None \<and>
             translationHistory (handleTranslate env s) = translationHistory s)"
proof -
  obtain s1 r where t: "try_block env (begin_translation s) = (s1, r)"
    by (cases "try_block env (begin_translation s)") auto
  from try_block_results [OF t] have
    "(r = Inr () \<and> results s1 \<noteq> None \<and>
           (\<exists>entry. translationHistory s1 = take 10 (entry # translationHistory s)))
         \<or> ((\<exists>e. r = Inl e) \<and> results s1 = None \<and> translationHistory s1 = translationHistory s)"
    by simp
  then show ?thesis
  proof
    assume a: "r = Inr () \<and> results s1 \<noteq> None \<and>
           (\<exists>entry. translationHistory s1 = take 10 (entry # translationHistory s))"
    then have "r = Inr ()" by simp
    with t have "handleTranslate env s = finally_block env s1"
      by (simp add: handleTranslate_with_file [OF assms])
    with a show ?thesis by simp
  next
    assume a: "(\<exists>e. r = Inl e) \<and> results s1 = None \<and>
               translationHistory s1 = translationHistory s"
    then obtain e where "r = Inl e" by blast
    with t have "handleTranslate env s = finally_block env (catch_block env e s1)"
      by (simp add: handleTranslate_with_file [OF assms])
    with a show ?thesis by simp
  qed
qed

lemma length_filter_ids:
  "filter_ids recordId aliases k recs = Inr kept \<Longrightarrow> length kept \<le> length recs"
proof (induction recs arbitrary: kept k)
  case Nil
  then show ?case by simp
next
  case (Cons rec recs)
  from Cons.prems obtain rid rest where
    r: "filter_ids recordId aliases (Suc k) recs = Inr rest"
    and k: "kept = rest \<or> kept = rec # rest"
    by (auto simp: bind_error_def split: sum.splits if_splits)
  from Cons.IH [OF r] k show ?case by auto
qed

lemma reachable_bounded:
  "reachable s \<Longrightarrow> length (translationHistory s) \<le> 10"
proof (induction rule: reachable.induct)
  case (initial s)
  then show ?case by simp
next
  case (other s s')
  then show ?case by simp
next
  case (load s env)
  then show ?case
    by (auto simp: loadHistory_def split: option.splits sum.splits js_value.splits)
next
  case (clear s env)
  then show ?case by (simp add: clearHistory_def)
next
  case (delete s env recordId aliases)
  then show ?case
    using length_filter_ids [of recordId aliases 0 "translationHistory s"]
    by (auto simp: deleteHistoryItem_def split: sum.splits)
next
  case (translate s env)
  show ?case
  proof (cases "file s = None")
    case True
    with translate show ?thesis by (simp add: handleTranslate_def)
  next
    case False
    from handleTranslate_history [OF False, of env] translate.IH
    show ?thesis by auto
  qed
qed

lemma sample_failure:
  "snd (try_block sample_env (begin_translation sample_state)) =
     Inl (TypeError ''Failed to fetch'')"
  by (simp add: try_block_def extraction_stage_def live_extraction_def
        translation_stage_def begin_translation_def stopCamera_def append_log_def
        sample_env_def sample_state_def MAX_SEQ_LEN_def Let_def)

lemma make_results_cong:
  "selectedMethod s' = selectedMethod s \<Longrightarrow> make_results env s' data = make_results env s data"
  by (simp add: make_results_def)

lemma make_results_translation:
  "make_results env s data = Inr res \<Longrightarrow> get_prop data ''translation'' = Inr (translation res)"
  by (auto simp: make_results_def bind_error_def split: sum.splits)

lemma history_record_explicit:
  "get_prop data ''translation'' = Inr tr \<Longrightarrow> get_prop data ''confidence'' = Inr conf \<Longrightarrow>
   history_record env m data =
     Inr (JObj [(''id'', JNum (Date_now env)),
                (''time'', JStr (toLocaleString env)),
                (''translation'', tr),
                (''confidence'', if truthy conf then conf else JNum 0),
                (''method'', JStr m)])"
  by (simp add: history_record_def bind_error_def)

lemma translation_stage_success:
  assumes "fetch env \<lparr>landmarks = lm, req_method = m\<rparr> = Inr resp" "ok resp"
    and "JSON_parse env (body resp) = Inr data"
    and "make_results env s data = Inr res"
    and "history_record env m data = Inr entry"
  shows "snd (translation_stage env m lm s) = Inr ()
       \<and> results (fst (translation_stage env m lm s)) = Some res
       \<and> translationHistory (fst (translation_stage env m lm s)) =
           take 10 (entry # translationHistory s)
       \<and> storedHistory (fst (translation_stage env m lm s)) =
           (if localStorage_ok env
            then Some (JSON_stringify env (JArr (take 10 (entry # translationHistory s))))
            else storedHistory s)"
proof -
  let ?s2 = "(append_log env (t_lookup env ''log_sending_landmarks'' [])
                (s\<lparr>currentStage := t_lookup env ''translatingSignLanguage'' []\<rparr>))
             \<lparr>sentRequests := sentRequests s @ [\<lparr>landmarks = lm, req_method = m\<rparr>],
               progress := 100\<rparr>"
  have "make_results env ?s2 data = Inr res"
    using assms(4) by (simp add: make_results_cong [of ?s2 s])
  with assms(1,2,3,5) show ?thesis
    by (simp add: translation_stage_def Let_def append_history_def append_log_def)
qed

lemma handleTranslate_success:
  assumes "file s \<noteq> None"
    and "snd (extraction_stage env (begin_translation s)) = Inr lm"
    and "fetch env \<lparr>landmarks = lm, req_method = ''reranked_s2g_beam_g2t''\<rparr> = Inr resp"
    and "ok resp"
    and "JSON_parse env (body resp) = Inr data"
    and "make_results env s data = Inr res"
    and "history_record env ''reranked_s2g_beam_g2t'' data = Inr entry"
  shows "results (handleTranslate env s) = Some res
       \<and> translationHistory (handleTranslate env s) = take 10 (entry # translationHistory s)
       \<and> storedHistory (handleTranslate env s) =
           (if localStorage_ok env
            then Some (JSON_stringify env (JArr (take 10 (entry # translationHistory s))))
            else storedHistory s)"
proof -
  obtain s1 where x: "extraction_stage env (begin_translation s) = (s1, Inr lm)"
    using assms(2) by (cases "extraction_stage env (begin_translation s)") auto
  from extraction_stage_fields [OF x]
  have f: "translationHistory s1 = translationHistory s" "storedHistory s1 = storedHistory s"
    "selectedMethod s1 = selectedMethod s"
    by simp_all
  have m: "make_results env s1 data = Inr res"
    using assms(6) f(3) by (simp add: make_results_cong [of s1 s])
  note t = translation_stage_success [OF assms(3) assms(4) assms(5) m assms(7)]
  obtain s2 where ts: "translation_stage env ''reranked_s2g_beam_g2t'' lm s1 = (s2, Inr ())"
    using t by (cases "translation_stage env ''reranked_s2g_beam_g2t'' lm s1") auto
  from x ts have "try_block env (begin_translation s) = (s2, Inr ())"
    by (simp add: try_block_def)
  then have "handleTranslate env s = finally_block env s2"
    by (simp add: handleTranslate_with_file [OF assms(1)])
  with t ts f show ?thesis by simp
qed

lemma translation_stage_shown:
  assumes "translation_stage env m lm s = (s1, r)" "results s = None" "results s1 \<noteq> None"
  shows "\<exists>resp data res.
           fetch env \<lparr>landmarks = lm, req_method = m\<rparr> = Inr resp \<and> ok resp
           \<and> JSON_parse env (body resp) = Inr data \<and> make_results env s data = Inr res"
proof (cases "fetch env \<lparr>landmarks = lm, req_method = m\<rparr>")
  case (Inl e)
  with assms show ?thesis by (auto simp: translation_stage_def Let_def)
next
  case (Inr resp)
  note resp = this
  show ?thesis
  proof (cases "ok resp")
    case False
    with assms resp show ?thesis
      by (auto simp: translation_stage_def Let_def error_response_falls_back)
  next
    case True
    note okr = this
    show ?thesis
    proof (cases "JSON_parse env (body resp)")
      case (Inl msg)
      with assms resp okr show ?thesis by (auto simp: translation_stage_def Let_def)
    next
      case (Inr data)
      note data = this
      let ?s2 = "(append_log env (t_lookup env ''log_sending_landmarks'' [])
                    (s\<lparr>currentStage := t_lookup env ''translatingSignLanguage'' []\<rparr>))
                 \<lparr>sentRequests := sentRequests s @ [\<lparr>landmarks = lm, req_method = m\<rparr>],
                   progress := 100\<rparr>"
      show ?thesis
      proof (cases "make_results env ?s2 data")
        case (Inl e)
        with assms resp okr data show ?thesis
          by (auto simp: translation_stage_def Let_def)
      next
        case (Inr res)
        then have "make_results env s data = Inr res"
          by (simp add: make_results_cong [of ?s2 s])
        with resp okr data show ?thesis by blast
      qed
    qed
  qed
qed

lemma handleTranslate_shown:
  assumes "file s \<noteq> None" "results (handleTranslate env s) \<noteq> None"
  shows "\<exists>lm resp data res.
           snd (extraction_stage env (begin_translation s)) = Inr lm
           \<and> fetch env \<lparr>landmarks = lm, req_method = ''reranked_s2g_beam_g2t''\<rparr> = Inr resp
           \<and> ok resp \<and> JSON_parse env (body resp) = Inr data
           \<and> make_results env s data = Inr res"
proof -
  obtain s1 r where x: "extraction_stage env (begin_translation s) = (s1, r)"
    by (cases "extraction_stage env (begin_translation s)") auto
  from extraction_stage_fields [OF x]
  have f: "results s1 = None" "selectedMethod s1 = selectedMethod s" by simp_all
  show ?thesis
  proof (cases r)
    case (Inl e)
    with x have "handleTranslate env s = finally_block env (catch_block env e s1)"
      by (simp add: handleTranslate_with_file [OF assms(1)] try_block_def)
    with f assms(2) show ?thesis by simp
  next
    case (Inr lm)
    obtain s2 r2 where
      t: "translation_stage env ''reranked_s2g_beam_g2t'' lm s1 = (s2, r2)"
      by (cases "translation_stage env ''reranked_s2g_beam_g2t'' lm s1") auto
    with x Inr have tb: "try_block env (begin_translation s) = (s2, r2)"
      by (simp add: try_block_def)
    have "results s2 \<noteq> None"
    proof (cases r2)
      case (Inl e)
      with tb have "handleTranslate env s = finally_block env (catch_block env e s2)"
        by (simp add: handleTranslate_with_file [OF assms(1)])
      with assms(2) show ?thesis by simp
    next
      case (Inr u)
      with tb have "handleTranslate env s = finally_block env s2"
        by (simp add: handleTranslate_with_file [OF assms(1)])
      with assms(2) show ?thesis by simp
    qed
    from translation_stage_shown [OF t f(1) this]
    obtain resp data res where
      "fetch env \<lparr>landmarks = lm, req_method = ''reranked_s2g_beam_g2t''\<rparr> = Inr resp"
      "ok resp" "JSON_parse env (body resp) = Inr data" "make_results env s1 data = Inr res"
      by blast
    moreover from this f(2) have "make_results env s data = Inr res"
      by (simp add: make_results_cong [of s1 s])
    moreover from x Inr have "snd (extraction_stage env (begin_translation s)) = Inr lm"
      by simp
    ultimately show ?thesis by blast
  qed
qed

lemma loaded_state:
  "loadHistory storage_env stored_state =
     stored_state\<lparr>translationHistory := map stored_record [11, 10, 9, 8, 7, 6, 5, 4, 3, 2]\<rparr>"
  by (simp add: loadHistory_def storage_env_def stored_state_def stored_text_def)

lemma answering_results:
  "make_results answering_env s
     (JObj [(''gloss'', JStr ''HALLO''), (''translation'', JStr ''Hallo''),
            (''confidence'', JObj [(''overall'', JNum 1)])]) =
   Inr \<lparr>gloss = JStr ''HALLO'', translation = JStr ''Hallo'', confidence = JNum 1,
        method_label = JStr (selectedMethod s), processingTime = JStr ''N/A'',
        landmarksShape = JUndefined\<rparr>"
  by (simp add: make_results_def bind_error_def answering_env_def sample_env_def)

lemma unreachable_service_results:
  "results (handleTranslate sample_env (stored_state\<lparr>translationHistory := hist\<rparr>)) = None"
proof -
  let ?s = "stored_state\<lparr>translationHistory := hist\<rparr>"
  have f: "file ?s \<noteq> None" by (simp add: stored_state_def sample_state_def)
  obtain s1 r where t: "try_block sample_env (begin_translation ?s) = (s1, r)"
    by (cases "try_block sample_env (begin_translation ?s)") auto
  have "snd (try_block sample_env (begin_translation ?s)) = Inl (TypeError ''Failed to fetch'')"
    by (simp add: try_block_def extraction_stage_def live_extraction_def
          translation_stage_def begin_translation_def stopCamera_def append_log_def
          sample_env_def sample_state_def stored_state_def MAX_SEQ_LEN_def Let_def)
  with t have r: "r = Inl (TypeError ''Failed to fetch'')" by simp
  from try_block_failure [OF t [unfolded r]] have "results s1 = None" by simp
  with t r show ?thesis by (simp add: handleTranslate_with_file [OF f])
qed

section \<open>Claims about the translation handler\<close>

text \<open>
  C7.  For a response that is not ok the message should be the \<open>error\<close> field of the
  JSON body when the body parses.  The handler does not deliver it: for the body
  \<open>{"error": "Model not loaded"}\<close> the message is the truncated raw text, as it is for
  every other body.
\<close>

theorem error_response_drops_error_field:
  \<open>error_response
     (env\<lparr>JSON_parse := \<lambda>txt. Inr (JObj [(''error'', JStr ''Model not loaded'')])\<rparr>)
     ''{"error": "Model not loaded"}''
   = Inl (Error ''Server error: {"error": "Model not loaded"}...'')
   \<and> error_response
     (env\<lparr>JSON_parse := \<lambda>txt. Inr (JObj [(''error'', JStr ''Model not loaded'')])\<rparr>)
     ''{"error": "Model not loaded"}''
   \<noteq> Inl (Error ''Model not loaded'')\<close>
  by (simp add: error_response_def try_catch_def bind_error_def)

text \<open>
  C8.  The handler of src/src/App.jsx, on its live-recording path, posts the fixed method
  string \<open>"reranked_s2g_beam_g2t"\<close> whatever method the user selected; the handler
  of src/unnamed/part_000, which always extracts from the video, posts the selected
  method.
\<close>

theorem method_sent_by_each_handler:
  "(file s \<noteq> None \<and> inputMode s = ''record'' \<and> realtimeLandmarks s \<noteq> [] \<longrightarrow>
      sentRequests (handleTranslate env s) =
        sentRequests s @
        [\<lparr>landmarks = map concat (normalize_seq (realtimeLandmarks s) MAX_SEQ_LEN),
          req_method = ''reranked_s2g_beam_g2t''\<rparr>])
   \<and> (file s \<noteq> None \<and> video_outcome env = Inr landmarksList \<longrightarrow>
      sentRequests (handleTranslate_part_000 env s) =
        sentRequests s @
        [\<lparr>landmarks = map concat (normalize_seq landmarksList MAX_SEQ_LEN),
          req_method = selectedMethod s\<rparr>])"
proof (intro conjI impI)
  assume a: "file s \<noteq> None \<and> inputMode s = ''record'' \<and> realtimeLandmarks s \<noteq> []"
  then have "snd (extraction_stage env (begin_translation s)) =
               Inr (map concat (normalize_seq (realtimeLandmarks s) MAX_SEQ_LEN))"
    using extraction_stage_live [of "begin_translation s" env] by simp
  with a show "sentRequests (handleTranslate env s) =
        sentRequests s @
        [\<lparr>landmarks = map concat (normalize_seq (realtimeLandmarks s) MAX_SEQ_LEN),
          req_method = ''reranked_s2g_beam_g2t''\<rparr>]"
    by (simp add: handleTranslate_sent)
next
  assume "file s \<noteq> None \<and> video_outcome env = Inr landmarksList"
  then show "sentRequests (handleTranslate_part_000 env s) =
        sentRequests s @
        [\<lparr>landmarks = map concat (normalize_seq landmarksList MAX_SEQ_LEN),
          req_method = selectedMethod s\<rparr>]"
    by (simp add: handleTranslate_part_000_sent)
qed

theorem method_sent_by_each_handler_witness:
  "file sample_state \<noteq> None \<and> inputMode sample_state = ''record''
   \<and> realtimeLandmarks sample_state \<noteq> []
   \<and> video_outcome sample_env = Inr [zeroHand @ zeroHand]
   \<and> map req_method (sentRequests (handleTranslate sample_env sample_state)) =
       [''reranked_s2g_beam_g2t'']
   \<and> map req_method (sentRequests (handleTranslate_part_000 sample_env sample_state)) =
       [''s2g_greedy_g2t'']"
  using method_sent_by_each_handler [of sample_state sample_env "[zeroHand @ zeroHand]"]
  by (simp add: sample_state_def sample_env_def)

text \<open>
  C9.  The history never holds more than 10 entries.  A translation succeeds when
  extraction returns the landmarks and the service answers ok with a body that parses and
  holds the fields of a result; only then is a result shown.  The handler then puts the
  record of this translation (its time, its text, its confidence, the method) first,
  keeps the earlier entries in their order behind it and cuts the list to 10, so with 10
  entries the oldest one is dropped and the length stays 10, and it stores the new list.
  A translation that shows no result leaves the history as it was.  Loading the stored
  history keeps its first 10 entries.
\<close>

theorem history_most_recent_first_capped:
  "(reachable s \<longrightarrow> length (translationHistory s) \<le> 10)
   \<and> (file s \<noteq> None
        \<and> snd (extraction_stage env (begin_translation s)) = Inr extractedLandmarks
        \<and> fetch env \<lparr>landmarks = extractedLandmarks,
                      req_method = ''reranked_s2g_beam_g2t''\<rparr> = Inr resp
        \<and> ok resp
        \<and> JSON_parse env (body resp) = Inr data
        \<and> make_results env s data = Inr res
        \<and> get_prop data ''confidence'' = Inr conf \<longrightarrow>
        (let entry = JObj [(''id'', JNum (Date_now env)),
                           (''time'', JStr (toLocaleString env)),
                           (''translation'', translation res),
                           (''confidence'', if truthy conf then conf else JNum 0),
                           (''method'', JStr ''reranked_s2g_beam_g2t'')]
         in results (handleTranslate env s) = Some res
            \<and> translationHistory (handleTranslate env s) =
                take 10 (entry # translationHistory s)
            \<and> hd (translationHistory (handleTranslate env s)) = entry
            \<and> (length (translationHistory s) = 10 \<longrightarrow>
                 translationHistory (handleTranslate env s) =
                   entry # butlast (translationHistory s)
                 \<and> length (translationHistory (handleTranslate env s)) = 10)
            \<and> storedHistory (handleTranslate env s) =
                (if localStorage_ok env
                 then Some (JSON_stringify env (JArr (translationHistory (handleTranslate env s))))
                 else storedHistory s)))
   \<and> (file s \<noteq> None \<and> results (handleTranslate env s) \<noteq> None \<longrightarrow>
        (\<exists>lm resp' data' res'.
           snd (extraction_stage env (begin_translation s)) = Inr lm
           \<and> fetch env \<lparr>landmarks = lm, req_method = ''reranked_s2g_beam_g2t''\<rparr> = Inr resp'
           \<and> ok resp' \<and> JSON_parse env (body resp') = Inr data'
           \<and> make_results env s data' = Inr res'))
   \<and> (file s \<noteq> None \<and> results (handleTranslate env s) = None \<longrightarrow>
        translationHistory (handleTranslate env s) = translationHistory s)
   \<and> (storedHistory s = Some raw \<and> raw \<noteq> [] \<and> JSON_parse env raw = Inr (JArr parsed) \<longrightarrow>
        translationHistory (loadHistory env s) = take 10 parsed)"
proof (intro conjI impI)
  assume "reachable s"
  then show "length (translationHistory s) \<le> 10" by (rule reachable_bounded)
next
  assume a: "file s \<noteq> None
        \<and> snd (extraction_stage env (begin_translation s)) = Inr extractedLandmarks
        \<and> fetch env \<lparr>landmarks = extractedLandmarks,
                      req_method = ''reranked_s2g_beam_g2t''\<rparr> = Inr resp
        \<and> ok resp
        \<and> JSON_parse env (body resp) = Inr data
        \<and> make_results env s data = Inr res
        \<and> get_prop data ''confidence'' = Inr conf"
  let ?entry = "JObj [(''id'', JNum (Date_now env)),
                      (''time'', JStr (toLocaleString env)),
                      (''translation'', translation res),
                      (''confidence'', if truthy conf then conf else JNum 0),
                      (''method'', JStr ''reranked_s2g_beam_g2t'')]"
  from a have a1: "file s \<noteq> None"
    and a2: "snd (extraction_stage env (begin_translation s)) = Inr extractedLandmarks"
    and a3: "fetch env \<lparr>landmarks = extractedLandmarks,
                          req_method = ''reranked_s2g_beam_g2t''\<rparr> = Inr resp"
    and a4: "ok resp"
    and a5: "JSON_parse env (body resp) = Inr data"
    and a6: "make_results env s data = Inr res"
    and a7: "get_prop data ''confidence'' = Inr conf"
    by blast+
  note tr = make_results_translation [OF a6]
  note h = history_record_explicit [OF tr a7, of env "''reranked_s2g_beam_g2t''"]
  have s: "results (handleTranslate env s) = Some res
       \<and> translationHistory (handleTranslate env s) = take 10 (?entry # translationHistory s)
       \<and> storedHistory (handleTranslate env s) =
           (if localStorage_ok env
            then Some (JSON_stringify env (JArr (take 10 (?entry # translationHistory s))))
            else storedHistory s)"
    by (rule handleTranslate_success [OF a1 a2 a3 a4 a5 a6 h])
  have b: "length (translationHistory s) = 10 \<longrightarrow>
          take 10 (?entry # translationHistory s) = ?entry # butlast (translationHistory s)"
    by (auto simp: butlast_conv_take numeral_eq_Suc)
  have c: "hd (take 10 (?entry # translationHistory s)) = ?entry"
    by (simp add: numeral_eq_Suc)
  from s b c show "let entry = ?entry
         in results (handleTranslate env s) = Some res
            \<and> translationHistory (handleTranslate env s) =
                take 10 (entry # translationHistory s)
            \<and> hd (translationHistory (handleTranslate env s)) = entry
            \<and> (length (translationHistory s) = 10 \<longrightarrow>
                 translationHistory (handleTranslate env s) =
                   entry # butlast (translationHistory s)
                 \<and> length (translationHistory (handleTranslate env s)) = 10)
            \<and> storedHistory (handleTranslate env s) =
                (if localStorage_ok env
                 then Some (JSON_stringify env (JArr (translationHistory (handleTranslate env s))))
                 else storedHistory s)"
    unfolding Let_def by auto
next
  assume "file s \<noteq> None \<and> results (handleTranslate env s) \<noteq> None"
  then have "file s \<noteq> None" and "results (handleTranslate env s) \<noteq> None" by blast+
  then show "\<exists>lm resp' data' res'.
           snd (extraction_stage env (begin_translation s)) = Inr lm
           \<and> fetch env \<lparr>landmarks = lm, req_method = ''reranked_s2g_beam_g2t''\<rparr> = Inr resp'
           \<and> ok resp' \<and> JSON_parse env (body resp') = Inr data'
           \<and> make_results env s data' = Inr res'"
    by (rule handleTranslate_shown)
next
  assume "file s \<noteq> None \<and> results (handleTranslate env s) = None"
  with handleTranslate_history [of s env]
  show "translationHistory (handleTranslate env s) = translationHistory s" by auto
next
  assume "storedHistory s = Some raw \<and> raw \<noteq> [] \<and> JSON_parse env raw = Inr (JArr parsed)"
  then show "translationHistory (loadHistory env s) = take 10 parsed"
    by (simp add: loadHistory_def)
qed

theorem history_most_recent_first_capped_witness:
  "reachable (loadHistory storage_env stored_state)
   \<and> length (translationHistory (loadHistory storage_env stored_state)) \<le> 10
   \<and> translationHistory (loadHistory storage_env stored_state) =
       map stored_record [11, 10, 9, 8, 7, 6, 5, 4, 3, 2]
   \<and> results (handleTranslate answering_env (loadHistory storage_env stored_state)) =
       Some \<lparr>gloss = JStr ''HALLO'', translation = JStr ''Hallo'', confidence = JNum 1,
             method_label = JStr ''s2g_greedy_g2t'', processingTime = JStr ''N/A'',
             landmarksShape = JUndefined\<rparr>
   \<and> translationHistory (handleTranslate answering_env (loadHistory storage_env stored_state)) =
       JObj [(''id'', JNum 1767261600000),
             (''time'', JStr ''1/1/2026, 10:00:00''),
             (''translation'', JStr ''Hallo''),
             (''confidence'', JObj [(''overall'', JNum 1)]),
             (''method'', JStr ''reranked_s2g_beam_g2t'')]
       # map stored_record [11, 10, 9, 8, 7, 6, 5, 4, 3]
   \<and> results (handleTranslate sample_env (loadHistory storage_env stored_state)) = None
   \<and> translationHistory (handleTranslate sample_env (loadHistory storage_env stored_state)) =
       map stored_record [11, 10, 9, 8, 7, 6, 5, 4, 3, 2]"
proof -
  let ?s = "loadHistory storage_env stored_state"
  let ?data = "JObj [(''gloss'', JStr ''HALLO''), (''translation'', JStr ''Hallo''),
                     (''confidence'', JObj [(''overall'', JNum 1)])]"
  let ?lm = "map concat (normalize_seq (realtimeLandmarks ?s) MAX_SEQ_LEN)"
  let ?resp = "answering_response"
  have init: "reachable stored_state"
    by (rule reachable.initial) (simp add: stored_state_def sample_state_def)
  then have r: "reachable ?s" by (rule reachable.load)
  have raw: "storedHistory stored_state = Some stored_text \<and> stored_text \<noteq> []
             \<and> JSON_parse storage_env stored_text =
                 Inr (JArr (map stored_record [11, 10, 9, 8, 7, 6, 5, 4, 3, 2, 1]))"
    by (simp add: stored_state_def storage_env_def stored_text_def)
  from history_most_recent_first_capped
         [of stored_state storage_env _ _ _ _ _ stored_text
             "map stored_record [11, 10, 9, 8, 7, 6, 5, 4, 3, 2, 1]"] raw
  have loaded: "translationHistory ?s = map stored_record [11, 10, 9, 8, 7, 6, 5, 4, 3, 2]"
    by simp
  have fields: "file ?s \<noteq> None" "inputMode ?s = ''record''" "realtimeLandmarks ?s \<noteq> []"
    "selectedMethod ?s = ''s2g_greedy_g2t''"
    by (simp_all add: loaded_state) (simp_all add: stored_state_def sample_state_def)
  have x: "snd (extraction_stage answering_env (begin_translation ?s)) = Inr ?lm"
    using extraction_stage_live [of "begin_translation ?s" answering_env] fields by simp
  have hyp: "file ?s \<noteq> None
        \<and> snd (extraction_stage answering_env (begin_translation ?s)) = Inr ?lm
        \<and> fetch answering_env \<lparr>landmarks = ?lm,
                      req_method = ''reranked_s2g_beam_g2t''\<rparr> = Inr ?resp
        \<and> ok ?resp
        \<and> JSON_parse answering_env (body ?resp) = Inr ?data
        \<and> make_results answering_env ?s ?data =
            Inr \<lparr>gloss = JStr ''HALLO'', translation = JStr ''Hallo'', confidence = JNum 1,
                 method_label = JStr ''s2g_greedy_g2t'', processingTime = JStr ''N/A'',
                 landmarksShape = JUndefined\<rparr>
        \<and> get_prop ?data ''confidence'' = Inr (JObj [(''overall'', JNum 1)])"
    using fields x
    by (simp add: answering_results)
       (simp add: answering_env_def sample_env_def answering_response_def)
  from history_most_recent_first_capped
         [of ?s answering_env ?lm ?resp ?data
             "\<lparr>gloss = JStr ''HALLO'', translation = JStr ''Hallo'', confidence = JNum 1,
               method_label = JStr ''s2g_greedy_g2t'', processingTime = JStr ''N/A'',
               landmarksShape = JUndefined\<rparr>"
             "JObj [(''overall'', JNum 1)]"] hyp loaded
  have ok: "results (handleTranslate answering_env ?s) =
       Some \<lparr>gloss = JStr ''HALLO'', translation = JStr ''Hallo'', confidence = JNum 1,
             method_label = JStr ''s2g_greedy_g2t'', processingTime = JStr ''N/A'',
             landmarksShape = JUndefined\<rparr>
     \<and> translationHistory (handleTranslate answering_env ?s) =
       JObj [(''id'', JNum 1767261600000),
             (''time'', JStr ''1/1/2026, 10:00:00''),
             (''translation'', JStr ''Hallo''),
             (''confidence'', JObj [(''overall'', JNum 1)]),
             (''method'', JStr ''reranked_s2g_beam_g2t'')]
       # map stored_record [11, 10, 9, 8, 7, 6, 5, 4, 3]"
    by (simp add: Let_def answering_env_def sample_env_def)
  have none: "results (handleTranslate sample_env ?s) = None"
    using unreachable_service_results [of "map stored_record [11, 10, 9, 8, 7, 6, 5, 4, 3, 2]"]
    by (simp add: loaded_state)
  from history_most_recent_first_capped [of ?s sample_env] fields(1) none loaded
  have same: "translationHistory (handleTranslate sample_env ?s) =
       map stored_record [11, 10, 9, 8, 7, 6, 5, 4, 3, 2]"
    by simp
  from history_most_recent_first_capped [of ?s sample_env] r
  have bound: "length (translationHistory ?s) \<le> 10" by simp
  from r bound loaded ok none same show ?thesis by simp
qed

text \<open>
  C10.  When extraction or translation fails with an exception \<open>err\<close>, the handler
  writes no history entry, leaves the result empty, appends the failure with the
  message of \<open>err\<close> to the diagnostic log, sets an error message, and clears the
  processing flag and the stage label.  The error message is the message of \<open>err\<close>
  (the generic text when that message is empty), unless the restart of the camera in
  record mode fails as well and reports its own.
\<close>

theorem failure_is_reported_not_recorded:
  assumes "file s \<noteq> None" "try_block env (begin_translation s) = (s1, Inl err)"
  shows "translationHistory (handleTranslate env s) = translationHistory s
       \<and> storedHistory (handleTranslate env s) = storedHistory s
       \<and> results (handleTranslate env s) = None
       \<and> extractionLog (handleTranslate env s) =
           extractionLog s1 @ [log_line env (t_lookup env ''log_error_prefix'' [message err])]
       \<and> error (handleTranslate env s) \<noteq> None
       \<and> (inputMode s = ''upload'' \<or> getUserMedia_ok env \<longrightarrow>
            error (handleTranslate env s) =
              Some (if message err \<noteq> [] then message err
                    else t_lookup env ''translationFailedTryAgain'' []))
       \<and> isProcessing (handleTranslate env s) = False
       \<and> currentStage (handleTranslate env s) = []"
proof -
  have h: "handleTranslate env s = finally_block env (catch_block env err s1)"
    by (simp add: handleTranslate_with_file [OF assms(1)] assms(2))
  from try_block_failure [OF assms(2)]
  have f: "translationHistory s1 = translationHistory s" "storedHistory s1 = storedHistory s"
    "results s1 = None" "inputMode s1 = inputMode s"
    by simp_all
  show ?thesis unfolding h using f by auto
qed

theorem failure_is_reported_not_recorded_witness:
  "file sample_state \<noteq> None
   \<and> snd (try_block sample_env (begin_translation sample_state)) =
       Inl (TypeError ''Failed to fetch'')
   \<and> error (handleTranslate sample_env sample_state) = Some ''Failed to fetch''
   \<and> translationHistory (handleTranslate sample_env sample_state) = []
   \<and> results (handleTranslate sample_env sample_state) = None
   \<and> \<not> isProcessing (handleTranslate sample_env sample_state)"
proof -
  have f: "file sample_state \<noteq> None" by (simp add: sample_state_def)
  have t: "try_block sample_env (begin_translation sample_state) =
             (fst (try_block sample_env (begin_translation sample_state)),
              Inl (TypeError ''Failed to fetch''))"
    using sample_failure by (simp add: prod_eq_iff)
  from failure_is_reported_not_recorded [OF f t] sample_failure f
  show ?thesis by (simp add: sample_state_def sample_env_def)
qed

end
